theory Spec2Isabelle
  imports Main
begin

section \<open>The ledger schema\<close>

text \<open>
  The schema is embedded as a state of two tables and a statement semantics. A row holds
  the values of its columns as they are stored: a \<open>NOT NULL\<close> column is a plain value, a
  nullable one an option. \<open>DECIMAL(15, 2)\<close> amounts are integers counting hundredths, with
  the range of the column type checked where a row is written. UUIDs and keys are strings,
  timestamps are integers.

  The statements are those that read or write rows of the schema as it is declared:
  \<open>INSERT\<close>, \<open>UPDATE\<close>, \<open>DELETE\<close> and \<open>TRUNCATE\<close>. Statements that change the schema
  itself (dropping a table, dropping or disabling a trigger) leave the schema that the
  claims are about and are outside the model.

  Foreign keys of rows are not part of the model: the tables \<open>users\<close> and
  \<open>reward_definitions\<close> are outside the state, no foreign key of the schema cascades a
  change of rows, and a foreign key can only reject an \<open>INSERT\<close>, \<open>UPDATE\<close> or \<open>DELETE\<close>
  that the model accepts. A \<open>TRUNCATE ... CASCADE\<close> of one of the tables outside the state
  empties the two tables of the state, as the \<open>TRUNCATE\<close> of both does.
\<close>

datatype entry_type = CREDIT | DEBIT | REVERSAL

datatype reward_status = PENDING | CONFIRMED | PAID | REVERSED | EXPIRED

type_synonym uuid = string

type_synonym timestamptz = int

record reward_event =
  re_id :: uuid
  re_idempotency_key :: string
  reward_definition_id :: "uuid option"
  referrer_user_id :: uuid
  referred_user_id :: uuid
  status :: reward_status
  re_amount :: int
  re_currency :: "string option"
  re_created_at :: "timestamptz option"
  confirmed_at :: "timestamptz option"
  paid_at :: "timestamptz option"
  reversed_at :: "timestamptz option"
  created_by :: "string option"
  reversal_reason :: "string option"

record ledger_entry =
  entry_id :: uuid
  user_id :: uuid
  entry_type :: entry_type
  amount :: int
  currency :: "string option"
  balance_after :: int
  reward_event_id :: "uuid option"
  reference_entry_id :: "uuid option"
  idempotency_key :: string
  description :: string
  created_at :: timestamptz
  metadata :: "string option"

record database =
  reward_events :: "reward_event list"
  ledger_entries :: "ledger_entry list"

definition empty_database :: database where
  "empty_database = \<lparr>reward_events = [], ledger_entries = []\<rparr>"

datatype sql_error =
    NumericOverflow
  | CheckViolation string
  | UniqueViolation string
  | RaiseException string
  | FeatureNotSupported string

text \<open>\<open>DECIMAL(15, 2)\<close>: at most thirteen digits before the point, so fewer than \<open>10^15\<close>
  hundredths in absolute value.\<close>

definition numeric_15_2 :: "int \<Rightarrow> bool" where
  "numeric_15_2 v \<longleftrightarrow> \<bar>v\<bar> < 10 ^ 15"

text \<open>\<open>CONSTRAINT valid_participants CHECK (referrer_user_id != referred_user_id)\<close>\<close>

definition valid_participants :: "reward_event \<Rightarrow> bool" where
  "valid_participants r \<longleftrightarrow> referrer_user_id r \<noteq> referred_user_id r"

text \<open>The primary key and the \<open>UNIQUE\<close> column of \<open>reward_events\<close>; the primary key and
  \<open>idx_ledger_idempotency\<close> on \<open>(idempotency_key, entry_type)\<close> of \<open>ledger_entries\<close>.\<close>

definition reward_events_pkey :: "reward_event list \<Rightarrow> bool" where
  "reward_events_pkey rs \<longleftrightarrow> distinct (map re_id rs)"

definition reward_events_idempotency_key_key :: "reward_event list \<Rightarrow> bool" where
  "reward_events_idempotency_key_key rs \<longleftrightarrow> distinct (map re_idempotency_key rs)"

definition ledger_entries_pkey :: "ledger_entry list \<Rightarrow> bool" where
  "ledger_entries_pkey es \<longleftrightarrow> distinct (map entry_id es)"

definition ledger_key :: "ledger_entry \<Rightarrow> string \<times> entry_type" where
  "ledger_key e = (idempotency_key e, entry_type e)"

definition idx_ledger_idempotency :: "ledger_entry list \<Rightarrow> bool" where
  "idx_ledger_idempotency es \<longleftrightarrow> distinct (map ledger_key es)"

text \<open>The checks a written row of \<open>reward_events\<close> passes, in the order the database makes
  them: the value fits the column, the \<open>CHECK\<close> constraint, then the unique indexes.
  Uniqueness is checked here on the table as it would be after the statement; the
  database checks it as each row is written, and so rejects every statement that is
  rejected here and possibly more. Of a statement that writes several rows and fails for
  more than one reason, the error reported here is the first in the order of the checks.\<close>

definition check_reward_events ::
  "reward_event list \<Rightarrow> reward_event list \<Rightarrow> sql_error + reward_event list" where
  "check_reward_events written tbl =
     (if \<not> list_all (\<lambda>r. numeric_15_2 (re_amount r)) written then Inl NumericOverflow
      else if \<not> list_all valid_participants written then Inl (CheckViolation ''valid_participants'')
      else if \<not> reward_events_pkey tbl then Inl (UniqueViolation ''reward_events_pkey'')
      else if \<not> reward_events_idempotency_key_key tbl
        then Inl (UniqueViolation ''reward_events_idempotency_key_key'')
      else Inr tbl)"

definition ledger_entry_fits :: "ledger_entry \<Rightarrow> bool" where
  "ledger_entry_fits e \<longleftrightarrow> numeric_15_2 (amount e) \<and> numeric_15_2 (balance_after e)"

definition check_ledger_entries ::
  "ledger_entry list \<Rightarrow> ledger_entry list \<Rightarrow> sql_error + ledger_entry list" where
  "check_ledger_entries written tbl =
     (if \<not> list_all ledger_entry_fits written
        then Inl NumericOverflow
      else if \<not> ledger_entries_pkey tbl then Inl (UniqueViolation ''ledger_entries_pkey'')
      else if \<not> idx_ledger_idempotency tbl then Inl (UniqueViolation ''idx_ledger_idempotency'')
      else Inr tbl)"

text \<open>
  \<open>prevent_ledger_modification()\<close>: the trigger function raises, and its \<open>RETURN NULL\<close> is
  never reached. A \<open>BEFORE\<close> row trigger that returned a row would let the operation on
  that row go on, one that returned \<open>NULL\<close> would skip the row.
\<close>

definition prevent_ledger_modification :: "ledger_entry \<Rightarrow> sql_error + ledger_entry option" where
  "prevent_ledger_modification old_row = Inl (RaiseException ''Ledger entries are immutable'')"

text \<open>\<open>enforce_ledger_immutability\<close>: \<open>BEFORE UPDATE OR DELETE ON ledger_entries FOR EACH
  ROW\<close>. The trigger function runs once for every row the statement's \<open>WHERE\<close> selects,
  before that row is changed; a statement that selects no row fires nothing. For an
  \<open>UPDATE\<close> the new row is computed, and its values are fitted to the columns, before the
  trigger is called with it. A \<open>TRUNCATE\<close> fires no row trigger, and the schema declares
  no trigger on it.\<close>

fun update_ledger_rows ::
  "(ledger_entry \<Rightarrow> bool) \<Rightarrow> (ledger_entry \<Rightarrow> ledger_entry) \<Rightarrow> ledger_entry list
    \<Rightarrow> sql_error + (ledger_entry list \<times> ledger_entry list)" where
  "update_ledger_rows w f [] = Inr ([], [])"
| "update_ledger_rows w f (e # es) =
     (if w e then
        if \<not> ledger_entry_fits (f e) then Inl NumericOverflow
        else
        (case prevent_ledger_modification e of
           Inl err \<Rightarrow> Inl err
         | Inr None \<Rightarrow>
             (case update_ledger_rows w f es of
                Inl err \<Rightarrow> Inl err
              | Inr (written, tbl) \<Rightarrow> Inr (written, e # tbl))
         | Inr (Some _) \<Rightarrow>
             (case update_ledger_rows w f es of
                Inl err \<Rightarrow> Inl err
              | Inr (written, tbl) \<Rightarrow> Inr (f e # written, f e # tbl)))
      else
        (case update_ledger_rows w f es of
           Inl err \<Rightarrow> Inl err
         | Inr (written, tbl) \<Rightarrow> Inr (written, e # tbl)))"

fun delete_ledger_rows ::
  "(ledger_entry \<Rightarrow> bool) \<Rightarrow> ledger_entry list \<Rightarrow> sql_error + ledger_entry list" where
  "delete_ledger_rows w [] = Inr []"
| "delete_ledger_rows w (e # es) =
     (if w e then
        (case prevent_ledger_modification e of
           Inl err \<Rightarrow> Inl err
         | Inr None \<Rightarrow>
             (case delete_ledger_rows w es of Inl err \<Rightarrow> Inl err | Inr tbl \<Rightarrow> Inr (e # tbl))
         | Inr (Some _) \<Rightarrow> delete_ledger_rows w es)
      else
        (case delete_ledger_rows w es of Inl err \<Rightarrow> Inl err | Inr tbl \<Rightarrow> Inr (e # tbl)))"

text \<open>The statements on the two tables. A \<open>WHERE\<close> clause is a predicate on rows, a \<open>SET\<close>
  clause a function on rows. \<open>TRUNCATE\<close> names the tables to empty and can be given
  \<open>CASCADE\<close>.\<close>

datatype table_name = REWARD_EVENTS | LEDGER_ENTRIES

datatype statement =
    InsertRewardEvent reward_event
  | UpdateRewardEvents "reward_event \<Rightarrow> bool" "reward_event \<Rightarrow> reward_event"
  | DeleteRewardEvents "reward_event \<Rightarrow> bool"
  | InsertLedgerEntry ledger_entry
  | UpdateLedgerEntries "ledger_entry \<Rightarrow> bool" "ledger_entry \<Rightarrow> ledger_entry"
  | DeleteLedgerEntries "ledger_entry \<Rightarrow> bool"
  | Truncate "table_name list" bool

text \<open>
  \<open>TRUNCATE\<close>. \<open>ledger_entries\<close> refers to \<open>reward_events\<close> by a foreign key (and to
  itself): truncating \<open>reward_events\<close> is refused unless \<open>ledger_entries\<close> is named in the
  same statement or \<open>CASCADE\<close> is given, which truncates it too. Truncating
  \<open>ledger_entries\<close> alone is accepted.
\<close>

definition truncate_tables :: "table_name list \<Rightarrow> bool \<Rightarrow> database \<Rightarrow> sql_error + database" where
  "truncate_tables tbls cascade db =
     (if REWARD_EVENTS \<in> set tbls \<and> LEDGER_ENTRIES \<notin> set tbls \<and> \<not> cascade then
        Inl (FeatureNotSupported
               ''cannot truncate a table referenced in a foreign key constraint'')
      else
        Inr (db\<lparr>reward_events :=
                  (if REWARD_EVENTS \<in> set tbls then [] else reward_events db),
                ledger_entries :=
                  (if LEDGER_ENTRIES \<in> set tbls \<or> REWARD_EVENTS \<in> set tbls then []
                   else ledger_entries db)\<rparr>))"

fun is_truncate :: "statement \<Rightarrow> bool" where
  "is_truncate (Truncate tbls cascade) = True"
| "is_truncate st = False"

text \<open>A statement either fails with an error, and then changes nothing, or yields the
  next state.\<close>

fun execute :: "statement \<Rightarrow> database \<Rightarrow> sql_error + database" where
  "execute (InsertRewardEvent r) db =
     (case check_reward_events [r] (reward_events db @ [r]) of
        Inl err \<Rightarrow> Inl err
      | Inr tbl \<Rightarrow> Inr (db\<lparr>reward_events := tbl\<rparr>))"
| "execute (UpdateRewardEvents w f) db =
     (case check_reward_events (map f (filter w (reward_events db)))
             (map (\<lambda>r. if w r then f r else r) (reward_events db)) of
        Inl err \<Rightarrow> Inl err
      | Inr tbl \<Rightarrow> Inr (db\<lparr>reward_events := tbl\<rparr>))"
| "execute (DeleteRewardEvents w) db =
     Inr (db\<lparr>reward_events := filter (\<lambda>r. \<not> w r) (reward_events db)\<rparr>)"
| "execute (InsertLedgerEntry e) db =
     (case check_ledger_entries [e] (ledger_entries db @ [e]) of
        Inl err \<Rightarrow> Inl err
      | Inr tbl \<Rightarrow> Inr (db\<lparr>ledger_entries := tbl\<rparr>))"
| "execute (UpdateLedgerEntries w f) db =
     (case update_ledger_rows w f (ledger_entries db) of
        Inl err \<Rightarrow> Inl err
      | Inr (written, tbl) \<Rightarrow>
          (case check_ledger_entries written tbl of
             Inl err \<Rightarrow> Inl err
           | Inr tbl' \<Rightarrow> Inr (db\<lparr>ledger_entries := tbl'\<rparr>)))"
| "execute (DeleteLedgerEntries w) db =
     (case delete_ledger_rows w (ledger_entries db) of
        Inl err \<Rightarrow> Inl err
      | Inr tbl \<Rightarrow> Inr (db\<lparr>ledger_entries := tbl\<rparr>))"
| "execute (Truncate tbls cascade) db = truncate_tables tbls cascade db"

definition step :: "database \<Rightarrow> statement \<Rightarrow> database" where
  "step db st = (case execute st db of Inl err \<Rightarrow> db | Inr db' \<Rightarrow> db')"

definition run :: "database \<Rightarrow> statement list \<Rightarrow> database" where
  "run db sts = foldl step db sts"

subsection \<open>The view \<open>user_balances\<close>\<close>

text \<open>SQL aggregates over the rows of a group: \<open>SUM\<close> and \<open>MAX\<close> of no row are \<open>NULL\<close>.\<close>

fun sql_sum :: "int list \<Rightarrow> int option" where
  "sql_sum [] = None"
| "sql_sum (v # vs) = Some (v + sum_list vs)"

fun sql_max :: "int list \<Rightarrow> int option" where
  "sql_max [] = None"
| "sql_max (v # vs) = Some (fold max vs v)"

record user_balance =
  ub_user_id :: uuid
  ub_currency :: "string option"
  current_balance :: "int option"
  total_entries :: nat
  last_transaction_at :: "timestamptz option"

definition entries_of :: "ledger_entry list \<Rightarrow> uuid \<Rightarrow> string option \<Rightarrow> ledger_entry list" where
  "entries_of es u c = filter (\<lambda>e. user_id e = u \<and> currency e = c) es"

text \<open>\<open>SELECT user_id, currency, SUM(amount), COUNT(*), MAX(created_at) FROM ledger_entries
  GROUP BY user_id, currency\<close>: one row for each pair that has an entry.\<close>

definition user_balances :: "database \<Rightarrow> user_balance list" where
  "user_balances db =
     map (\<lambda>(u, c).
            \<lparr>ub_user_id = u, ub_currency = c,
             current_balance = sql_sum (map amount (entries_of (ledger_entries db) u c)),
             total_entries = length (entries_of (ledger_entries db) u c),
             last_transaction_at = sql_max (map created_at (entries_of (ledger_entries db) u c))\<rparr>)
         (remdups (map (\<lambda>e. (user_id e, currency e)) (ledger_entries db)))"

subsection \<open>The ledger store\<close>

text \<open>
  Modelled from the spec: \<open>LedgerStore.getBalance\<close> and \<open>LedgerStore.append\<close>, whose
  implementation (the ledger service) is not among the sources. \<open>getBalance\<close> is the sum
  over all entries of the pair. \<open>append\<close> returns the entry that already has the draft's
  \<open>(idempotency_key, entry_type)\<close>, writing nothing; otherwise it computes
  \<open>balance_after\<close> as the current balance of the pair plus the signed amount and inserts
  the entry, with the identifier and the timestamp it is assigned. Appends are
  serialised, so the state an append reads is the state it writes to, and the entries of
  the table stand in the order of their appends: the most recent entry of a pair is the
  last one.
\<close>

record entry_draft =
  draft_user_id :: uuid
  draft_entry_type :: entry_type
  draft_amount :: int
  draft_currency :: string
  draft_reward_event_id :: "uuid option"
  draft_reference_entry_id :: "uuid option"
  draft_idempotency_key :: string
  draft_description :: string

definition getBalance :: "database \<Rightarrow> uuid \<Rightarrow> string option \<Rightarrow> int" where
  "getBalance db u c = sum_list (map amount (entries_of (ledger_entries db) u c))"

definition latest_entry :: "database \<Rightarrow> uuid \<Rightarrow> string option \<Rightarrow> ledger_entry option" where
  "latest_entry db u c =
     (case rev (entries_of (ledger_entries db) u c) of [] \<Rightarrow> None | e # _ \<Rightarrow> Some e)"

definition append_entry ::
  "database \<Rightarrow> entry_draft \<times> uuid \<times> timestamptz \<Rightarrow> sql_error + (database \<times> ledger_entry)" where
  "append_entry db d =
     (case d of (draft, new_id, now) \<Rightarrow>
        (case find (\<lambda>e. ledger_key e = (draft_idempotency_key draft, draft_entry_type draft))
                (ledger_entries db) of
           Some e \<Rightarrow> Inr (db, e)
         | None \<Rightarrow>
             (let e = \<lparr>entry_id = new_id,
                       user_id = draft_user_id draft,
                       entry_type = draft_entry_type draft,
                       amount = draft_amount draft,
                       currency = Some (draft_currency draft),
                       balance_after =
                         getBalance db (draft_user_id draft) (Some (draft_currency draft))
                           + draft_amount draft,
                       reward_event_id = draft_reward_event_id draft,
                       reference_entry_id = draft_reference_entry_id draft,
                       idempotency_key = draft_idempotency_key draft,
                       description = draft_description draft,
                       created_at = now,
                       metadata = Some ''{}''\<rparr>
              in (case execute (InsertLedgerEntry e) db of
                    Inl err \<Rightarrow> Inl err
                  | Inr db' \<Rightarrow> Inr (db', e)))))"

definition append_step :: "database \<Rightarrow> entry_draft \<times> uuid \<times> timestamptz \<Rightarrow> database" where
  "append_step db d = (case append_entry db d of Inl err \<Rightarrow> db | Inr (db', e) \<Rightarrow> db')"

definition appends :: "database \<Rightarrow> (entry_draft \<times> uuid \<times> timestamptz) list \<Rightarrow> database" where
  "appends db ds = foldl append_step db ds"

subsection \<open>Invariants and examples\<close>

text \<open>What the constraints of the schema keep true of a state, and what the appends of
  the ledger store keep true of the ledger.\<close>

definition constraints_hold :: "database \<Rightarrow> bool" where
  "constraints_hold db \<longleftrightarrow>
     idx_ledger_idempotency (ledger_entries db) \<and>
     reward_events_idempotency_key_key (reward_events db) \<and>
     list_all valid_participants (reward_events db)"

definition balanced :: "database \<Rightarrow> bool" where
  "balanced db \<longleftrightarrow>
     (\<forall>u c. entries_of (ledger_entries db) u c \<noteq> [] \<longrightarrow>
        balance_after (last (entries_of (ledger_entries db) u c)) =
        sum_list (map amount (entries_of (ledger_entries db) u c)))"

text \<open>The scenario of the specification: a reward of 500 INR to referrer A for referred B
  under the key k1, later reversed.\<close>

definition example_event :: reward_event where
  "example_event =
     \<lparr>re_id = ''r1'', re_idempotency_key = ''k1'', reward_definition_id = None,
      referrer_user_id = ''A'', referred_user_id = ''B'', status = PENDING,
      re_amount = 50000, re_currency = Some ''INR'', re_created_at = Some 1,
      confirmed_at = None, paid_at = None, reversed_at = None, created_by = None,
      reversal_reason = None\<rparr>"

definition example_credit :: "entry_draft \<times> uuid \<times> timestamptz" where
  "example_credit =
     (\<lparr>draft_user_id = ''A'', draft_entry_type = CREDIT, draft_amount = 50000,
       draft_currency = ''INR'', draft_reward_event_id = Some ''r1'',
       draft_reference_entry_id = None, draft_idempotency_key = ''k1'',
       draft_description = ''Referral reward''\<rparr>, ''e1'', 1)"

definition example_reversal :: "entry_draft \<times> uuid \<times> timestamptz" where
  "example_reversal =
     (\<lparr>draft_user_id = ''A'', draft_entry_type = REVERSAL, draft_amount = - 50000,
       draft_currency = ''INR'', draft_reward_event_id = Some ''r1'',
       draft_reference_entry_id = Some ''e1'', draft_idempotency_key = ''k1'',
       draft_description = ''fraud''\<rparr>, ''e2'', 2)"

definition example_entry_1 :: ledger_entry where
  "example_entry_1 =
     \<lparr>entry_id = ''e1'', user_id = ''A'', entry_type = CREDIT, amount = 50000,
      currency = Some ''INR'', balance_after = 50000, reward_event_id = Some ''r1'',
      reference_entry_id = None, idempotency_key = ''k1'', description = ''Referral reward'',
      created_at = 1, metadata = Some ''{}''\<rparr>"

definition example_entry_2 :: ledger_entry where
  "example_entry_2 =
     \<lparr>entry_id = ''e2'', user_id = ''A'', entry_type = REVERSAL, amount = - 50000,
      currency = Some ''INR'', balance_after = 0, reward_event_id = Some ''r1'',
      reference_entry_id = Some ''e1'', idempotency_key = ''k1'', description = ''fraud'',
      created_at = 2, metadata = Some ''{}''\<rparr>"

definition example_ledger :: database where
  "example_ledger = appends empty_database [example_credit, example_credit, example_reversal]"

definition example_statements :: "statement list" where
  "example_statements =
     [InsertRewardEvent example_event, InsertLedgerEntry example_entry_1,
      InsertLedgerEntry example_entry_2]"

definition example_database :: database where
  "example_database = run empty_database example_statements"

section \<open>The flow builder\<close>

text \<open>
  The editor keeps one mutable \<open>state\<close> object; its event handlers are embedded as
  functions from a state to the next one. The document tree is not modelled: it is a
  function of \<open>state.nodes\<close> (one element per node, carrying an input port unless the
  node is a trigger and an output port unless it is an action), and the only place where
  it decides what the state becomes, a \<open>querySelector\<close> that finds no port, is written out
  in \<open>handlePortClick\<close>. The label and the icon of a template are display data and the
  \<open>template\<close> field of a node is left out with them.
\<close>

subsection \<open>Values\<close>

text \<open>
  Values as the builder handles them. A number is \<open>JNum\<close> when it holds an integer
  exactly, which every integer up to \<open>2^53\<close> in absolute value does. \<open>JRounded n\<close> stands
  for the number that \<open>parseInt\<close> makes of a longer numeral \<open>n\<close>: the engine may round
  it, to infinity for the longest, so its value is not a part of the model. \<open>JNaN\<close> is
  what \<open>parseInt\<close> returns when it finds no digit. An object is the list of its
  properties in insertion order.
\<close>

datatype jsval =
    JUndefined
  | JBool bool
  | JNum int
  | JRounded int
  | JNaN
  | JStr string
  | JArr "jsval list"
  | JObj "(string \<times> jsval) list"

text \<open>Reading \<open>o.key\<close>: the value of the property, \<open>undefined\<close> when there is none.\<close>

definition get_prop :: "(string \<times> jsval) list \<Rightarrow> string \<Rightarrow> jsval" where
  "get_prop obj key = (case map_of obj key of None \<Rightarrow> JUndefined | Some v \<Rightarrow> v)"

text \<open>Writing \<open>o.key = v\<close>: an existing property keeps its place, a new one goes last.\<close>

fun set_prop :: "(string \<times> jsval) list \<Rightarrow> string \<Rightarrow> jsval \<Rightarrow> (string \<times> jsval) list" where
  "set_prop [] key v = [(key, v)]"
| "set_prop ((k, w) # obj) key v =
     (if k = key then (k, v) # obj else (k, w) # set_prop obj key v)"

text \<open>\<open>Object.assign(target, source)\<close>\<close>

definition object_assign ::
  "(string \<times> jsval) list \<Rightarrow> (string \<times> jsval) list \<Rightarrow> (string \<times> jsval) list" where
  "object_assign target source = foldl (\<lambda>obj (k, v). set_prop obj k v) target source"

text \<open>A string of the input text is the list of its UTF-16 code units.\<close>

type_synonym jsstring = "nat list"

definition js :: "string \<Rightarrow> jsstring" where
  "js s = map of_char s"

fun starts_with :: "jsstring \<Rightarrow> jsstring \<Rightarrow> bool" where
  "starts_with s [] = True"
| "starts_with [] (p # ps) = False"
| "starts_with (c # cs) (p # ps) = (c = p \<and> starts_with cs ps)"

fun js_includes :: "jsstring \<Rightarrow> jsstring \<Rightarrow> bool" where
  "js_includes [] sub = (sub = [])"
| "js_includes (c # cs) sub = (starts_with (c # cs) sub \<or> js_includes cs sub)"

subsection \<open>Node templates\<close>

record cond_template =
  label :: string
  field :: string
  operators :: "string list"
  valueType :: string
  options :: "string list option"

definition nodeTemplates_trigger :: "(string \<times> string) list" where
  "nodeTemplates_trigger =
     [(''referral_signup'', ''Referral Signup''),
      (''subscription_started'', ''Subscription Started''),
      (''payment_received'', ''Payment Received'')]"

definition nodeTemplates_condition :: "(string \<times> cond_template) list" where
  "nodeTemplates_condition =
     [(''referrer.is_paid_user'',
         \<lparr>label = ''Is Paid User'', field = ''referrer.is_paid_user'',
          operators = [''equals'', ''not_equals''], valueType = ''boolean'', options = None\<rparr>),
      (''referred.subscription_plan'',
         \<lparr>label = ''Subscription Plan'', field = ''referred.subscription_plan'',
          operators = [''equals'', ''not_equals'', ''in''], valueType = ''select'',
          options = Some [''free'', ''basic'', ''premium'', ''enterprise'']\<rparr>),
      (''referrer.tier'',
         \<lparr>label = ''User Tier'', field = ''referrer.tier'',
          operators = [''equals'', ''not_equals''], valueType = ''select'',
          options = Some [''standard'', ''silver'', ''gold'', ''VIP'']\<rparr>),
      (''payment.amount'',
         \<lparr>label = ''Payment Amount'', field = ''payment.amount'',
          operators = [''equals'', ''greater_than'', ''less_than'', ''greater_than_or_equal''],
          valueType = ''number'', options = None\<rparr>)]"

definition nodeTemplates_action :: "(string \<times> string \<times> string list) list" where
  "nodeTemplates_action =
     [(''credit_reward'', ''Credit Reward'', [''amount'', ''currency'', ''reward_type'']),
      (''send_notification'', ''Send Notification'', [''channel'', ''template'']),
      (''update_status'', ''Update Status'', [''entity'', ''status''])]"

definition nodeTemplates_logic :: "(string \<times> string) list" where
  "nodeTemplates_logic = [(''AND'', ''AND Gate''), (''OR'', ''OR Gate'')]"

subsection \<open>State\<close>

record flow_node =
  node_id :: string
  node_type :: string
  subType :: string
  node_x :: int
  node_y :: int
  config :: "(string \<times> jsval) list"

record connection =
  conn_from :: string
  conn_to :: string

record connecting_port =
  nodeId :: string
  portType :: string

text \<open>\<open>selectedNode\<close> refers to a node object of \<open>nodes\<close>; the handlers read nothing of it
  but its id, which is what the model keeps.\<close>

record state =
  nodes :: "flow_node list"
  connections :: "connection list"
  selectedNode :: "string option"
  connecting :: "connecting_port option"
  nextNodeId :: nat
  dragOffset :: "int \<times> int"

definition initial_state :: state where
  "initial_state =
     \<lparr>nodes = [], connections = [], selectedNode = None, connecting = None, nextNodeId = 1,
      dragOffset = (0, 0)\<rparr>"

subsection \<open>Node creation\<close>

text \<open>The decimal numeral of a number, as a template literal prints it.\<close>

fun decimal :: "nat \<Rightarrow> string" where
  "decimal n =
     (if n < 10 then [char_of (48 + n)] else decimal (n div 10) @ [char_of (48 + n mod 10)])"

declare decimal.simps [simp del]

text \<open>The payload of a drag from the palette: the \<open>data-\<close> attributes of the palette item,
  each absent or a string, whatever the string.\<close>

record drag_data =
  data_nodeType :: "string option"
  data_trigger :: "string option"
  data_field :: "string option"
  data_action :: "string option"
  data_logic :: "string option"

text \<open>
  \<open>table[key]\<close> on a table of templates is tested for truth. The tables are plain
  objects: besides the keys a table lists, the lookup finds the properties that every
  object inherits from \<open>Object.prototype\<close>, all of them functions or objects and so true.
  An absent key reads the property \<open>undefined\<close>, which no table has.
\<close>

definition object_prototype_keys :: "string list" where
  "object_prototype_keys =
     [''constructor'', ''hasOwnProperty'', ''isPrototypeOf'', ''propertyIsEnumerable'',
      ''toLocaleString'', ''toString'', ''valueOf'', ''__proto__'', ''__defineGetter__'',
      ''__defineSetter__'', ''__lookupGetter__'', ''__lookupSetter__'']"

definition has_key :: "(string \<times> 'a) list \<Rightarrow> string option \<Rightarrow> bool" where
  "has_key tbl k =
     (case k of
        None \<Rightarrow> False
      | Some key \<Rightarrow> map_of tbl key \<noteq> None \<or> key \<in> set object_prototype_keys)"

text \<open>
  \<open>getDefaultConfig\<close>. For a condition it reads the template of the sub-type. When the
  sub-type is not a key the table lists, what the lookup gives has no \<open>operators\<close>, and
  reading their first element throws a \<open>TypeError\<close>: the result \<open>None\<close>.
\<close>

definition getDefaultConfig :: "string \<Rightarrow> string \<Rightarrow> (string \<times> jsval) list option" where
  "getDefaultConfig nodeType sub =
     (case
        (if nodeType = ''condition'' then
           (case map_of nodeTemplates_condition sub of
              None \<Rightarrow> None
            | Some template \<Rightarrow>
                Some [(''field'', JStr (field template)),
                      (''operator'',
                         (case operators template of [] \<Rightarrow> JUndefined | ope # _ \<Rightarrow> JStr ope)),
                      (''value'',
                         (if valueType template = ''boolean'' then JBool True
                          else if valueType template = ''number'' then JNum 0
                          else (case options template of
                                  None \<Rightarrow> JStr []
                                | Some [] \<Rightarrow> JUndefined
                                | Some (opt # _) \<Rightarrow> JStr opt)))])
         else Some [])
      of
        None \<Rightarrow> None
      | Some cfg \<Rightarrow>
          Some (if nodeType = ''action'' then
                  (if sub = ''credit_reward'' then
                     set_prop (set_prop (set_prop cfg ''amount'' (JNum 100)) ''currency'' (JStr ''INR''))
                       ''reward_type'' (JStr ''voucher'')
                   else if sub = ''send_notification'' then
                     set_prop (set_prop cfg ''channel'' (JStr ''email''))
                       ''template'' (JStr ''reward_credited'')
                   else cfg)
                else cfg))"

text \<open>
  \<open>createNode\<close>. The counter \<open>nextNodeId\<close> is read and incremented first, also when no
  node is made. The switch picks the template table by the node type; without a template
  the function returns, and when \<open>getDefaultConfig\<close> throws it is left before the node is
  pushed: in both cases nothing else changes. The result is the next state and the node
  made, which is then the last of \<open>nodes\<close>.
\<close>

definition createNode :: "drag_data \<Rightarrow> int \<Rightarrow> int \<Rightarrow> state \<Rightarrow> state \<times> flow_node option" where
  "createNode dat px py s =
     (let nid = ''node-'' @ decimal (nextNodeId s);
          s1 = s\<lparr>nextNodeId := nextNodeId s + 1\<rparr>;
          nodeType = data_nodeType dat;
          (template, sub) =
            (if nodeType = Some ''trigger'' then
               (has_key nodeTemplates_trigger (data_trigger dat), data_trigger dat)
             else if nodeType = Some ''condition'' then
               (has_key nodeTemplates_condition (data_field dat), data_field dat)
             else if nodeType = Some ''action'' then
               (has_key nodeTemplates_action (data_action dat), data_action dat)
             else if nodeType = Some ''logic'' then
               (has_key nodeTemplates_logic (data_logic dat), data_logic dat)
             else (False, None))
      in if \<not> template then (s1, None)
         else
           (case (nodeType, sub) of
              (Some ty, Some st) \<Rightarrow>
                (case getDefaultConfig ty st of
                   None \<Rightarrow> (s1, None)
                 | Some cfg \<Rightarrow>
                     (let node = \<lparr>node_id = nid, node_type = ty, subType = st,
                                  node_x = px - 90, node_y = py - 30, config = cfg\<rparr>
                      in (s1\<lparr>nodes := nodes s1 @ [node]\<rparr>, Some node)))
            | _ \<Rightarrow> (s1, None)))"

subsection \<open>Node interactions and connections\<close>

text \<open>The handlers of a node's element are bound to the node object: the events name it
  by its position in \<open>nodes\<close>, and an event on a position that holds no node does not
  happen.\<close>

definition handleNodeMouseDown :: "nat \<Rightarrow> int \<Rightarrow> int \<Rightarrow> state \<Rightarrow> state" where
  "handleNodeMouseDown i ox oy s =
     (if i < length (nodes s) then s\<lparr>dragOffset := (ox, oy)\<rparr> else s)"

definition handleMouseMove :: "nat \<Rightarrow> int \<Rightarrow> int \<Rightarrow> state \<Rightarrow> state" where
  "handleMouseMove i px py s =
     (if i < length (nodes s) then
        s\<lparr>nodes := (nodes s)[i := (nodes s ! i)\<lparr>node_x := px - fst (dragOffset s),
                                                 node_y := py - snd (dragOffset s)\<rparr>]\<rparr>
      else s)"

definition handleNodeClick :: "nat \<Rightarrow> state \<Rightarrow> state" where
  "handleNodeClick i s =
     (if i < length (nodes s) then s\<lparr>selectedNode := Some (node_id (nodes s ! i))\<rparr> else s)"

definition handleCanvasClick :: "state \<Rightarrow> state" where
  "handleCanvasClick s = s\<lparr>selectedNode := None, connecting := None\<rparr>"

text \<open>\<open>document.querySelector(`#${id} .port.output`)\<close> and its input counterpart find an
  element exactly when a node with the id is on the canvas and has the port.\<close>

definition has_output_port :: "state \<Rightarrow> string \<Rightarrow> bool" where
  "has_output_port s nid = list_ex (\<lambda>n. node_id n = nid \<and> node_type n \<noteq> ''action'') (nodes s)"

definition has_input_port :: "state \<Rightarrow> string \<Rightarrow> bool" where
  "has_input_port s nid = list_ex (\<lambda>n. node_id n = nid \<and> node_type n \<noteq> ''trigger'') (nodes s)"

text \<open>
  \<open>handlePortClick\<close>. The first click starts a connection. The second completes it when
  it is on another node and on a port of the other type, unless the connection exists;
  then the pending connection is reset. After pushing a connection the handler marks the
  two ports in the document; when one of them is not found (the node where the connection
  started was deleted meanwhile) that statement throws, and the reset below it is not
  reached.
\<close>

definition handlePortClick :: "nat \<Rightarrow> string \<Rightarrow> state \<Rightarrow> state" where
  "handlePortClick i pt s =
     (if \<not> i < length (nodes s) then s
      else
        (let node = nodes s ! i in
           (case connecting s of
              None \<Rightarrow> s\<lparr>connecting := Some \<lparr>nodeId = node_id node, portType = pt\<rparr>\<rparr>
            | Some cg \<Rightarrow>
                (if nodeId cg \<noteq> node_id node \<and> portType cg \<noteq> pt then
                   (let fromNode = (if portType cg = ''output'' then nodeId cg else node_id node);
                        toNode = (if portType cg = ''output'' then node_id node else nodeId cg);
                        exists = list_ex (\<lambda>c. conn_from c = fromNode \<and> conn_to c = toNode)
                                   (connections s)
                    in if \<not> exists then
                         (let s1 = s\<lparr>connections :=
                                      connections s @ [\<lparr>conn_from = fromNode, conn_to = toNode\<rparr>]\<rparr>
                          in if has_output_port s1 fromNode \<and> has_input_port s1 toNode
                             then s1\<lparr>connecting := None\<rparr>
                             else s1)
                       else s\<lparr>connecting := None\<rparr>)
                 else s\<lparr>connecting := None\<rparr>))))"

definition deleteConnection :: "connection \<Rightarrow> state \<Rightarrow> state" where
  "deleteConnection conn s =
     s\<lparr>connections :=
         filter (\<lambda>c. \<not> (conn_from c = conn_from conn \<and> conn_to c = conn_to conn)) (connections s)\<rparr>"

definition deleteNode :: "string \<Rightarrow> state \<Rightarrow> state" where
  "deleteNode nid s =
     s\<lparr>nodes := filter (\<lambda>n. node_id n \<noteq> nid) (nodes s),
       connections := filter (\<lambda>c. conn_from c \<noteq> nid \<and> conn_to c \<noteq> nid) (connections s),
       selectedNode := None\<rparr>"

definition clearCanvas :: "state \<Rightarrow> state" where
  "clearCanvas s = s\<lparr>nodes := [], connections := [], selectedNode := None, connecting := None\<rparr>"

subsection \<open>Export\<close>

record rule =
  rule_id :: string
  rule_name :: string
  rule_description :: string
  version :: int
  is_active :: bool
  priority :: int
  trigger :: string
  conditions :: jsval
  actions :: "jsval list"

text \<open>The leaf \<open>{field, operator, value}\<close> of a condition node and the action
  \<open>{type, params}\<close> of an action node, \<open>params\<close> being a copy of the node's \<open>config\<close>.\<close>

definition leaf_of :: "flow_node \<Rightarrow> jsval" where
  "leaf_of n =
     JObj [(''field'', get_prop (config n) ''field''),
           (''operator'', get_prop (config n) ''operator''),
           (''value'', get_prop (config n) ''value'')]"

definition action_of :: "flow_node \<Rightarrow> jsval" where
  "action_of n = JObj [(''type'', JStr (subType n)), (''params'', JObj (config n))]"

text \<open>\<open>buildRuleJSON\<close>; its first argument is what \<open>Date.now()\<close> returns.\<close>

definition buildRuleJSON :: "nat \<Rightarrow> state \<Rightarrow> rule" where
  "buildRuleJSON now s =
     (let triggerNode = find (\<lambda>n. node_type n = ''trigger'') (nodes s);
          conditionNodes = filter (\<lambda>n. node_type n = ''condition'') (nodes s);
          actionNodes = filter (\<lambda>n. node_type n = ''action'') (nodes s);
          logicNodes = filter (\<lambda>n. node_type n = ''logic'') (nodes s);
          conds =
            (if length conditionNodes = 0 then
               JObj [(''field'', JStr ''event.occurred''), (''operator'', JStr ''is_true'')]
             else if length conditionNodes = 1 then leaf_of (conditionNodes ! 0)
             else
               (let logicOperator =
                      (if length logicNodes > 0 then subType (logicNodes ! 0) else ''AND'')
                in JObj [(''operator'', JStr logicOperator),
                         (''conditions'', JArr (map leaf_of conditionNodes))]));
          acts = map action_of actionNodes
      in \<lparr>rule_id = ''rule-'' @ decimal now,
          rule_name = ''Generated Rule'',
          rule_description = ''Rule created with visual flow builder'',
          version = 1,
          is_active = True,
          priority = 0,
          trigger = (case triggerNode of Some t \<Rightarrow> subType t | None \<Rightarrow> ''referral_signup''),
          conditions = conds,
          actions =
            (if length acts > 0 then acts
             else [JObj [(''type'', JStr ''credit_reward''),
                         (''params'', JObj [(''amount'', JNum 100), (''currency'', JStr ''INR'')])]])\<rparr>)"

subsection \<open>Generation from natural language\<close>

text \<open>The character classes \<open>\d\<close> and \<open>\s\<close> (white space and line terminators, also what
  \<open>trim\<close> removes), and the rupee sign U+20B9.\<close>

definition is_digit :: "nat \<Rightarrow> bool" where
  "is_digit c \<longleftrightarrow> 48 \<le> c \<and> c \<le> 57"

definition is_space :: "nat \<Rightarrow> bool" where
  "is_space c \<longleftrightarrow>
     (9 \<le> c \<and> c \<le> 13) \<or> c = 32 \<or> c = 160 \<or> c = 5760 \<or> (8192 \<le> c \<and> c \<le> 8202) \<or>
     c = 8232 \<or> c = 8233 \<or> c = 8239 \<or> c = 8287 \<or> c = 12288 \<or> c = 65279"

definition rupee_sign :: nat where
  "rupee_sign = 8377"

text \<open>A pattern character against a text character under the \<open>i\<close> flag: the patterns
  below are lower-case ASCII letters, the dot and the rupee sign, and each matches itself
  and, for a letter, its upper case; no other code unit is canonicalised to them.\<close>

definition ci_match :: "nat \<Rightarrow> nat \<Rightarrow> bool" where
  "ci_match p c \<longleftrightarrow> c = p \<or> (97 \<le> p \<and> p \<le> 122 \<and> c + 32 = p)"

fun strip_ci :: "jsstring \<Rightarrow> jsstring \<Rightarrow> jsstring option" where
  "strip_ci [] txt = Some txt"
| "strip_ci (p # ps) [] = None"
| "strip_ci (p # ps) (c # cs) = (if ci_match p c then strip_ci ps cs else None)"

definition option_list :: "'a option \<Rightarrow> 'a list" where
  "option_list v = (case v of None \<Rightarrow> [] | Some r \<Rightarrow> [r])"

text \<open>The ways the group \<open>(?:R|rs\.?|inr|rupees?)\<close>, with \<open>R\<close> the rupee sign, matches at the
  start of a text, as the rests of the text after it, in the order in which the matcher
  tries them: the alternatives from left to right, an optional character first taken,
  then left.\<close>

definition currency_rests :: "jsstring \<Rightarrow> jsstring list" where
  "currency_rests txt =
     option_list (strip_ci [rupee_sign] txt)
     @ (case strip_ci (js ''rs'') txt of
          None \<Rightarrow> []
        | Some r \<Rightarrow> option_list (strip_ci (js ''.'') r) @ [r])
     @ option_list (strip_ci (js ''inr'') txt)
     @ (case strip_ci (js ''rupee'') txt of
          None \<Rightarrow> []
        | Some r \<Rightarrow> option_list (strip_ci (js ''s'') r) @ [r])"

text \<open>\<open>\s*(\d+)\<close> at the start of a text: the capture. Both repetitions are greedy, and
  giving characters back cannot help: a space given back is not a digit.\<close>

definition digits_at :: "jsstring \<Rightarrow> jsstring option" where
  "digits_at txt =
     (let ds = takeWhile is_digit (dropWhile is_space txt)
      in if ds = [] then None else Some ds)"

fun first_some :: "'a option list \<Rightarrow> 'a option" where
  "first_some [] = None"
| "first_some (None # vs) = first_some vs"
| "first_some (Some v # vs) = Some v"

text \<open>\<open>/(?:R|rs\.?|inr|rupees?)\s*(\d+)/i\<close> at the start of a text.\<close>

definition amount_after_at :: "jsstring \<Rightarrow> jsstring option" where
  "amount_after_at txt = first_some (map digits_at (currency_rests txt))"

text \<open>\<open>/(\d+)\s*(?:R|rs\.?|inr|rupees?)/i\<close> at the start of a text. Here too only the
  greedy choice can match: after fewer digits comes a digit, after fewer spaces a space,
  and the group starts with neither.\<close>

definition amount_before_at :: "jsstring \<Rightarrow> jsstring option" where
  "amount_before_at txt =
     (let ds = takeWhile is_digit txt;
          rest = dropWhile is_space (dropWhile is_digit txt)
      in if ds \<noteq> [] \<and> currency_rests rest \<noteq> [] then Some ds else None)"

text \<open>\<open>text.match(re)\<close> for a pattern without the \<open>g\<close> flag: the match at the leftmost
  position that has one, \<open>null\<close> when none has.\<close>

fun js_match :: "(jsstring \<Rightarrow> 'a option) \<Rightarrow> jsstring \<Rightarrow> 'a option" where
  "js_match at [] = at []"
| "js_match at (c # cs) = (case at (c # cs) of Some m \<Rightarrow> Some m | None \<Rightarrow> js_match at cs)"

text \<open>\<open>parseInt(string)\<close> with no radix: leading white space, a sign, the prefix \<open>0x\<close>
  for radix 16, then the longest run of digits of the radix; \<open>NaN\<close> when the run is
  empty. The sign of a zero is not kept.\<close>

definition digit_value :: "nat \<Rightarrow> nat \<Rightarrow> nat option" where
  "digit_value radix c =
     (let v = (if 48 \<le> c \<and> c \<le> 57 then Some (c - 48)
               else if 97 \<le> c \<and> c \<le> 122 then Some (c - 87)
               else if 65 \<le> c \<and> c \<le> 90 then Some (c - 55)
               else None)
      in case v of None \<Rightarrow> None | Some d \<Rightarrow> if d < radix then Some d else None)"

definition numeral_value :: "nat \<Rightarrow> jsstring \<Rightarrow> nat" where
  "numeral_value radix ds = foldl (\<lambda>a c. radix * a + the (digit_value radix c)) 0 ds"

definition number :: "int \<Rightarrow> jsval" where
  "number v = (if \<bar>v\<bar> \<le> 2 ^ 53 then JNum v else JRounded v)"

definition parseInt :: "jsstring \<Rightarrow> jsval" where
  "parseInt str =
     (let s0 = dropWhile is_space str;
          (sign, s1) =
            (case s0 of
               c # cs \<Rightarrow> if c = 45 then (- 1, cs) else if c = 43 then (1, cs) else (1::int, s0)
             | [] \<Rightarrow> (1, s0));
          (radix, s2) =
            (case s1 of
               c # d # cs \<Rightarrow> if c = 48 \<and> (d = 120 \<or> d = 88) then (16, cs) else (10::nat, s1)
             | _ \<Rightarrow> (10, s1));
          ds = takeWhile (\<lambda>c. digit_value radix c \<noteq> None) s2
      in if ds = [] then JNaN else number (sign * int (numeral_value radix ds)))"

record nl_rule =
  nl_trigger :: string
  nl_conditions :: "(string \<times> jsval) list list"
  nl_actions :: "(string \<times> jsval) list list"

definition amountMatch :: "jsstring \<Rightarrow> jsstring option" where
  "amountMatch txt =
     (case js_match amount_after_at txt of
        Some m \<Rightarrow> Some m
      | None \<Rightarrow> js_match amount_before_at txt)"

text \<open>
  \<open>parseNaturalLanguage\<close>. Its first argument is \<open>String.prototype.toLowerCase\<close>, which
  follows the case tables of Unicode: the function is taken as it comes, and what is
  proved of the parser holds for every such function.
\<close>

definition parseNaturalLanguage :: "(jsstring \<Rightarrow> jsstring) \<Rightarrow> jsstring \<Rightarrow> nl_rule" where
  "parseNaturalLanguage toLowerCase txt =
     (let textLower = toLowerCase txt;
          trig =
            (if js_includes textLower (js ''subscri'') then ''subscription_started''
             else if js_includes textLower (js ''payment'') \<or> js_includes textLower (js ''pay'')
               then ''payment_received''
             else ''referral_signup'');
          conds =
            (if js_includes textLower (js ''paid user'') \<or> js_includes textLower (js ''paid member'')
             then [[(''field'', JStr ''referrer.is_paid_user''), (''operator'', JStr ''equals''),
                    (''value'', JBool True)]]
             else [])
            @ (if js_includes textLower (js ''premium'')
               then [[(''field'', JStr ''referred.subscription_plan''),
                      (''operator'', JStr ''equals''), (''value'', JStr ''premium'')]]
               else [])
            @ (if js_includes textLower (js ''vip'')
               then [[(''field'', JStr ''referrer.tier''), (''operator'', JStr ''equals''),
                      (''value'', JStr ''VIP'')]]
               else []);
          amt = (case amountMatch txt of None \<Rightarrow> JNum 100 | Some m \<Rightarrow> parseInt m);
          rewardType =
            (if js_includes textLower (js ''cash'') then ''cash''
             else if js_includes textLower (js ''point'') then ''points''
             else ''voucher'')
      in \<lparr>nl_trigger = trig,
          nl_conditions =
            (if length conds > 0 then conds
             else [[(''field'', JStr ''referred.signup_completed''),
                    (''operator'', JStr ''is_true'')]]),
          nl_actions =
            [[(''type'', JStr ''credit_reward''),
              (''params'', JObj [(''amount'', amt), (''currency'', JStr ''INR''),
                                 (''reward_type'', JStr rewardType)])]]\<rparr>)"

text \<open>The ASCII part of \<open>toLowerCase\<close>, for texts of ASCII characters.\<close>

definition ascii_lower :: "jsstring \<Rightarrow> jsstring" where
  "ascii_lower txt = map (\<lambda>c. if 65 \<le> c \<and> c \<le> 90 then c + 32 else c) txt"

definition no_data :: drag_data where
  "no_data =
     \<lparr>data_nodeType = None, data_trigger = None, data_field = None, data_action = None,
      data_logic = None\<rparr>"

text \<open>One round of the loop over \<open>rule.conditions\<close>: a node is made for a leaf whose field
  is a non-empty string with a template, and the leaf's operator and value are written
  into the config of the node, which is the last of \<open>nodes\<close>.\<close>

definition generate_condition :: "state \<Rightarrow> nat \<times> (string \<times> jsval) list \<Rightarrow> state" where
  "generate_condition s ic =
     (case ic of (i, cond) \<Rightarrow>
        (case get_prop cond ''field'' of
           JStr fld \<Rightarrow>
             (if fld \<noteq> [] \<and> has_key nodeTemplates_condition (Some fld) then
                (case createNode (no_data\<lparr>data_nodeType := Some ''condition'', data_field := Some fld\<rparr>)
                        350 (80 + int i * 120) s of
                   (s1, None) \<Rightarrow> s1
                 | (s1, Some node) \<Rightarrow>
                     s1\<lparr>nodes := butlast (nodes s1) @
                          [node\<lparr>config :=
                             set_prop (set_prop (config node) ''operator'' (get_prop cond ''operator''))
                               ''value'' (get_prop cond ''value'')\<rparr>]\<rparr>)
              else s)
         | _ \<Rightarrow> s))"

text \<open>One round of the loop over \<open>rule.actions\<close>.\<close>

definition generate_action :: "int \<Rightarrow> state \<Rightarrow> nat \<times> (string \<times> jsval) list \<Rightarrow> state" where
  "generate_action px s ia =
     (case ia of (i, action) \<Rightarrow>
        (case createNode
                (no_data\<lparr>data_nodeType := Some ''action'',
                   data_action := (case get_prop action ''type'' of JStr t \<Rightarrow> Some t | _ \<Rightarrow> None)\<rparr>)
                px (80 + int i * 120) s of
           (s1, None) \<Rightarrow> s1
         | (s1, Some node) \<Rightarrow>
             (case get_prop action ''params'' of
                JObj params \<Rightarrow>
                  s1\<lparr>nodes := butlast (nodes s1) @
                       [node\<lparr>config := object_assign (config node) params\<rparr>]\<rparr>
              | _ \<Rightarrow> s1)))"

definition generateNodesFromRule :: "nl_rule \<Rightarrow> state \<Rightarrow> state" where
  "generateNodesFromRule r s =
     (let s1 = fst (createNode
                 (no_data\<lparr>data_nodeType := Some ''trigger'', data_trigger := Some (nl_trigger r)\<rparr>)
                 100 80 s);
          s2 = foldl generate_condition s1 (enumerate 0 (nl_conditions r));
          s3 = (if length (nl_conditions r) > 1 then
                  fst (createNode (no_data\<lparr>data_nodeType := Some ''logic'', data_logic := Some ''AND''\<rparr>)
                         550 (80 + 60) s2)
                else s2)
      in foldl (generate_action (if length (nl_conditions r) > 1 then 750 else 550)) s3
           (enumerate 0 (nl_actions r)))"

definition trim :: "jsstring \<Rightarrow> jsstring" where
  "trim str = rev (dropWhile is_space (rev (dropWhile is_space str)))"

definition generateFromAI :: "(jsstring \<Rightarrow> jsstring) \<Rightarrow> jsstring \<Rightarrow> state \<Rightarrow> state" where
  "generateFromAI toLowerCase val s =
     (let inp = trim val
      in if inp = [] then s
         else generateNodesFromRule (parseNaturalLanguage toLowerCase inp) (clearCanvas s))"

subsection \<open>Events\<close>

text \<open>What the user can do to the editor. Exporting and copying read the state and leave
  it as it is. The events are more than the page offers (a drop carries any strings as its
  payload, a port click names any port type, a deletion any id), so the states reached
  here include every state of the editor.\<close>

datatype event =
    CanvasDrop drag_data int int
  | NodeMouseDown nat int int
  | MouseMove nat int int
  | NodeClick nat
  | CanvasClick
  | PortClick nat string
  | ConnectionClick connection
  | DeleteNode string
  | ClearCanvas
  | GenerateFromAI jsstring

fun handle :: "(jsstring \<Rightarrow> jsstring) \<Rightarrow> state \<Rightarrow> event \<Rightarrow> state" where
  "handle toLowerCase s (CanvasDrop dat px py) = fst (createNode dat px py s)"
| "handle toLowerCase s (NodeMouseDown i ox oy) = handleNodeMouseDown i ox oy s"
| "handle toLowerCase s (MouseMove i px py) = handleMouseMove i px py s"
| "handle toLowerCase s (NodeClick i) = handleNodeClick i s"
| "handle toLowerCase s CanvasClick = handleCanvasClick s"
| "handle toLowerCase s (PortClick i pt) = handlePortClick i pt s"
| "handle toLowerCase s (ConnectionClick conn) = deleteConnection conn s"
| "handle toLowerCase s (DeleteNode nid) = deleteNode nid s"
| "handle toLowerCase s ClearCanvas = clearCanvas s"
| "handle toLowerCase s (GenerateFromAI val) = generateFromAI toLowerCase val s"

definition reach :: "(jsstring \<Rightarrow> jsstring) \<Rightarrow> event list \<Rightarrow> state" where
  "reach toLowerCase evs = foldl (handle toLowerCase) initial_state evs"

subsection \<open>Invariants and examples of the editor\<close>









text \<open>What the handlers keep true of the connections: none joins a node to itself and
  none occurs twice.\<close>

definition connections_ok :: "state \<Rightarrow> bool" where
  "connections_ok s \<longleftrightarrow>
     (\<forall>c \<in> set (connections s). conn_from c \<noteq> conn_to c) \<and> distinct (connections s)"


text \<open>A session with the editor: a trigger, two conditions, an OR gate and an action are
  dropped on the canvas; the trigger is wired to the first condition and that to the
  gate; then the user tries the second wire again from its other end, and tries to wire
  the second condition to itself.\<close>

definition example_events :: "event list" where
  "example_events =
     [CanvasDrop (no_data\<lparr>data_nodeType := Some ''trigger'',
                     data_trigger := Some ''payment_received''\<rparr>) 200 100,
      CanvasDrop (no_data\<lparr>data_nodeType := Some ''condition'',
                     data_field := Some ''payment.amount''\<rparr>) 400 100,
      CanvasDrop (no_data\<lparr>data_nodeType := Some ''condition'',
                     data_field := Some ''referrer.tier''\<rparr>) 400 220,
      CanvasDrop (no_data\<lparr>data_nodeType := Some ''logic'', data_logic := Some ''OR''\<rparr>) 600 160,
      CanvasDrop (no_data\<lparr>data_nodeType := Some ''action'',
                     data_action := Some ''credit_reward''\<rparr>) 800 160,
      PortClick 0 ''output'', PortClick 1 ''input'',
      PortClick 1 ''output'', PortClick 3 ''input'',
      PortClick 3 ''input'', PortClick 1 ''output'',
      PortClick 2 ''output'', PortClick 2 ''input'']"

definition example_canvas :: state where
  "example_canvas = reach ascii_lower example_events"

definition example_nodes :: "flow_node list" where
  "example_nodes =
     [\<lparr>node_id = ''node-1'', node_type = ''trigger'', subType = ''payment_received'',
       node_x = 110, node_y = 70, config = []\<rparr>,
      \<lparr>node_id = ''node-2'', node_type = ''condition'', subType = ''payment.amount'',
       node_x = 310, node_y = 70,
       config = [(''field'', JStr ''payment.amount''), (''operator'', JStr ''equals''),
                 (''value'', JNum 0)]\<rparr>,
      \<lparr>node_id = ''node-3'', node_type = ''condition'', subType = ''referrer.tier'',
       node_x = 310, node_y = 190,
       config = [(''field'', JStr ''referrer.tier''), (''operator'', JStr ''equals''),
                 (''value'', JStr ''standard'')]\<rparr>,
      \<lparr>node_id = ''node-4'', node_type = ''logic'', subType = ''OR'',
       node_x = 510, node_y = 130, config = []\<rparr>,
      \<lparr>node_id = ''node-5'', node_type = ''action'', subType = ''credit_reward'',
       node_x = 710, node_y = 130,
       config = [(''amount'', JNum 100), (''currency'', JStr ''INR''),
                 (''reward_type'', JStr ''voucher'')]\<rparr>]"


section \<open>Properties of the ledger schema\<close>

subsection \<open>The immutability trigger\<close>

lemma update_ledger_rows_none:
  "\<not> list_ex w es \<Longrightarrow> update_ledger_rows w f es = Inr ([], es)"
  by (induction es) simp_all

lemma update_ledger_rows_some:
  "list_ex w es \<Longrightarrow>
     update_ledger_rows w f es
       \<in> {Inl NumericOverflow, Inl (RaiseException ''Ledger entries are immutable'')}"
  by (induction es) (auto simp: prevent_ledger_modification_def)

lemma update_ledger_rows_fits:
  "list_ex w es \<Longrightarrow> list_all (\<lambda>e. w e \<longrightarrow> ledger_entry_fits (f e)) es \<Longrightarrow>
     update_ledger_rows w f es = Inl (RaiseException ''Ledger entries are immutable'')"
  by (induction es) (auto simp: prevent_ledger_modification_def)

lemma update_ledger_rows_Inr:
  "update_ledger_rows w f es = Inr (written, tbl) \<Longrightarrow> tbl = es"
  using update_ledger_rows_none [of w es f] update_ledger_rows_some [of w es f]
  by (cases "list_ex w es") auto

lemma delete_ledger_rows_eq:
  "delete_ledger_rows w es =
     (if list_ex w es then Inl (RaiseException ''Ledger entries are immutable'') else Inr es)"
  by (induction es) (simp_all add: prevent_ledger_modification_def)

lemma check_ledger_entries_Inr:
  "check_ledger_entries written tbl = Inr t \<Longrightarrow>
     t = tbl \<and> idx_ledger_idempotency tbl \<and> ledger_entries_pkey tbl"
  by (simp add: check_ledger_entries_def split: if_splits)

lemma check_reward_events_Inr:
  "check_reward_events written tbl = Inr t \<Longrightarrow>
     t = tbl \<and> list_all valid_participants written \<and> reward_events_pkey tbl \<and>
     reward_events_idempotency_key_key tbl"
  by (simp add: check_reward_events_def split: if_splits)

text \<open>A statement that succeeds leaves the ledger as it is, or is an insert that adds one
  entry at its end, or is a \<open>TRUNCATE\<close> that empties it.\<close>

lemma execute_ledger_cases:
  "execute st db = Inr db' \<Longrightarrow>
     ledger_entries db' = ledger_entries db \<or>
     (\<exists>e. st = InsertLedgerEntry e \<and> ledger_entries db' = ledger_entries db @ [e]
        \<and> idx_ledger_idempotency (ledger_entries db @ [e])) \<or>
     (is_truncate st \<and> ledger_entries db' = [])"
proof (cases st)
  case (UpdateLedgerEntries w f)
  assume "execute st db = Inr db'"
  with UpdateLedgerEntries show ?thesis
    by (auto dest!: check_ledger_entries_Inr update_ledger_rows_Inr split: sum.splits prod.splits)
next
  case (DeleteLedgerEntries w)
  assume "execute st db = Inr db'"
  with DeleteLedgerEntries show ?thesis
    by (auto simp: delete_ledger_rows_eq split: sum.splits if_splits)
next
  case (Truncate tbls cascade)
  assume "execute st db = Inr db'"
  with Truncate show ?thesis
    by (auto simp: truncate_tables_def split: if_splits)
next
  case (InsertLedgerEntry e)
  assume "execute st db = Inr db'"
  with InsertLedgerEntry show ?thesis
    by (auto dest!: check_ledger_entries_Inr split: sum.splits)
next
  case (InsertRewardEvent r)
  assume "execute st db = Inr db'"
  with InsertRewardEvent show ?thesis
    by (auto dest!: check_reward_events_Inr split: sum.splits)
next
  case (UpdateRewardEvents w f)
  assume "execute st db = Inr db'"
  with UpdateRewardEvents show ?thesis
    by (auto dest!: check_reward_events_Inr split: sum.splits)
next
  case (DeleteRewardEvents w)
  assume "execute st db = Inr db'"
  with DeleteRewardEvents show ?thesis by auto
qed

lemma step_ledger_extends:
  "\<not> is_truncate st \<Longrightarrow> \<exists>new. ledger_entries (step db st) = ledger_entries db @ new"
proof (cases "execute st db")
  case (Inl err)
  then show ?thesis by (simp add: step_def)
next
  case (Inr db')
  assume "\<not> is_truncate st"
  with execute_ledger_cases [OF Inr] show ?thesis
    using Inr by (auto simp: step_def)
qed

lemma run_ledger_extends:
  "list_all (\<lambda>st. \<not> is_truncate st) sts \<Longrightarrow>
     \<exists>new. ledger_entries (run db sts) = ledger_entries db @ new"
proof (induction sts arbitrary: db)
  case Nil
  then show ?case by (simp add: run_def)
next
  case (Cons st sts)
  then have "\<not> is_truncate st" "list_all (\<lambda>st. \<not> is_truncate st) sts" by simp_all
  obtain n1 where n1: "ledger_entries (step db st) = ledger_entries db @ n1"
    using step_ledger_extends [OF \<open>\<not> is_truncate st\<close>] by blast
  obtain n2 where "ledger_entries (run (step db st) sts) = ledger_entries (step db st) @ n2"
    using Cons.IH [OF \<open>list_all (\<lambda>st. \<not> is_truncate st) sts\<close>] by blast
  with n1 show ?case by (simp add: run_def)
qed

lemma example_database_eq:
  "example_database =
     \<lparr>reward_events = [example_event], ledger_entries = [example_entry_1, example_entry_2]\<rparr>"
  by (simp add: example_database_def example_statements_def run_def step_def empty_database_def
      check_reward_events_def check_ledger_entries_def ledger_entry_fits_def numeric_15_2_def
      valid_participants_def
      reward_events_pkey_def reward_events_idempotency_key_key_def ledger_entries_pkey_def
      idx_ledger_idempotency_def ledger_key_def example_event_def example_entry_1_def
      example_entry_2_def)

text \<open>
  What the trigger does give. An \<open>UPDATE\<close> or \<open>DELETE\<close> on \<open>ledger_entries\<close> whose \<open>WHERE\<close>
  selects an existing entry fails: the \<open>DELETE\<close> with the exception of the trigger, the
  \<open>UPDATE\<close> with it too unless a new value does not fit its column, which is found
  first. Whatever statements other than \<open>TRUNCATE\<close> are run, the ledger afterwards is the
  ledger before, every entry unchanged and in place, followed by the entries created
  since.
\<close>

lemma update_delete_rejected:
  "(e \<in> set (ledger_entries db) \<and> w e \<longrightarrow>
      execute (UpdateLedgerEntries w f) db
        \<in> {Inl NumericOverflow, Inl (RaiseException ''Ledger entries are immutable'')} \<and>
      (list_all (\<lambda>e. w e \<longrightarrow> ledger_entry_fits (f e)) (ledger_entries db) \<longrightarrow>
         execute (UpdateLedgerEntries w f) db
           = Inl (RaiseException ''Ledger entries are immutable'')) \<and>
      execute (DeleteLedgerEntries w) db = Inl (RaiseException ''Ledger entries are immutable'')) \<and>
   (list_all (\<lambda>st. \<not> is_truncate st) sts \<longrightarrow>
      (\<exists>new. ledger_entries (run db sts) = ledger_entries db @ new))"
proof -
  have "execute (UpdateLedgerEntries w f) db
        \<in> {Inl NumericOverflow, Inl (RaiseException ''Ledger entries are immutable'')}"
    if "list_ex w (ledger_entries db)"
    using update_ledger_rows_some [OF that, of f] by auto
  moreover have "execute (UpdateLedgerEntries w f) db
      = Inl (RaiseException ''Ledger entries are immutable'')"
    if "list_ex w (ledger_entries db)"
      "list_all (\<lambda>e. w e \<longrightarrow> ledger_entry_fits (f e)) (ledger_entries db)"
    using update_ledger_rows_fits [OF that] by simp
  moreover have "execute (DeleteLedgerEntries w) db
      = Inl (RaiseException ''Ledger entries are immutable'')"
    if "list_ex w (ledger_entries db)"
    using that by (simp add: delete_ledger_rows_eq)
  moreover have "list_ex w (ledger_entries db)" if "e \<in> set (ledger_entries db)" "w e"
    using that by (auto simp: list_ex_iff)
  ultimately show ?thesis
    using run_ledger_extends [of sts db] by blast
qed

text \<open>
  Claim C2. The claim is that no ledger entry is ever mutated or deleted, so that every
  reachable state contains every entry created before. The schema says so of the table
  (``Immutable ledger entries table'', ``Prevent ledger modifications''), but its trigger
  is a row trigger on \<open>UPDATE\<close> and \<open>DELETE\<close> only: \<open>TRUNCATE ledger_entries\<close> fires
  nothing, is accepted, and leaves a state without the entries created before.
\<close>

theorem truncate_deletes_ledger_entries:
  "ledger_entries example_database = [example_entry_1, example_entry_2] \<and>
   execute (DeleteLedgerEntries (\<lambda>e. True)) example_database
     = Inl (RaiseException ''Ledger entries are immutable'') \<and>
   execute (Truncate [LEDGER_ENTRIES] False) example_database
     = Inr (example_database\<lparr>ledger_entries := []\<rparr>) \<and>
   ledger_entries (run example_database [Truncate [LEDGER_ENTRIES] False]) = []"
  by (simp add: example_database_eq run_def step_def truncate_tables_def delete_ledger_rows_eq)

subsection \<open>Uniqueness of idempotency keys and the participants check\<close>

lemma execute_reward_cases:
  "execute st db = Inr db' \<Longrightarrow> reward_events_idempotency_key_key (reward_events db) \<Longrightarrow>
     list_all valid_participants (reward_events db) \<Longrightarrow>
     reward_events_idempotency_key_key (reward_events db') \<and>
     list_all valid_participants (reward_events db')"
proof (cases st)
  case (InsertRewardEvent r)
  assume "execute st db = Inr db'" "list_all valid_participants (reward_events db)"
  with InsertRewardEvent show ?thesis
    by (auto dest!: check_reward_events_Inr split: sum.splits)
next
  case (UpdateRewardEvents w f)
  assume "execute st db = Inr db'" "list_all valid_participants (reward_events db)"
  with UpdateRewardEvents show ?thesis
    by (auto simp: list_all_iff dest!: check_reward_events_Inr split: sum.splits)
next
  case (DeleteRewardEvents w)
  assume "execute st db = Inr db'" "list_all valid_participants (reward_events db)"
    "reward_events_idempotency_key_key (reward_events db)"
  with DeleteRewardEvents show ?thesis
    by (auto simp: list_all_iff reward_events_idempotency_key_key_def distinct_map_filter)
next
  case (InsertLedgerEntry e)
  assume "execute st db = Inr db'" "list_all valid_participants (reward_events db)"
    "reward_events_idempotency_key_key (reward_events db)"
  with InsertLedgerEntry show ?thesis
    by (auto dest!: check_ledger_entries_Inr split: sum.splits)
next
  case (UpdateLedgerEntries w f)
  assume "execute st db = Inr db'" "list_all valid_participants (reward_events db)"
    "reward_events_idempotency_key_key (reward_events db)"
  with UpdateLedgerEntries show ?thesis
    by (auto dest!: check_ledger_entries_Inr split: sum.splits)
next
  case (DeleteLedgerEntries w)
  assume "execute st db = Inr db'" "list_all valid_participants (reward_events db)"
    "reward_events_idempotency_key_key (reward_events db)"
  with DeleteLedgerEntries show ?thesis
    by (auto split: sum.splits)
next
  case (Truncate tbls cascade)
  assume "execute st db = Inr db'" "list_all valid_participants (reward_events db)"
    "reward_events_idempotency_key_key (reward_events db)"
  with Truncate show ?thesis
    by (auto simp: truncate_tables_def reward_events_idempotency_key_key_def split: if_splits)
qed

lemma step_constraints_hold: "constraints_hold db \<Longrightarrow> constraints_hold (step db st)"
proof (cases "execute st db")
  case (Inl err)
  assume "constraints_hold db"
  with Inl show ?thesis by (simp add: step_def)
next
  case (Inr db')
  assume c: "constraints_hold db"
  from execute_ledger_cases [OF Inr] c have "idx_ledger_idempotency (ledger_entries db')"
    by (auto simp: constraints_hold_def idx_ledger_idempotency_def)
  moreover from execute_reward_cases [OF Inr] c
  have "reward_events_idempotency_key_key (reward_events db') \<and>
     list_all valid_participants (reward_events db')"
    by (simp add: constraints_hold_def)
  ultimately show ?thesis using Inr by (simp add: step_def constraints_hold_def)
qed

lemma run_constraints_hold: "constraints_hold db \<Longrightarrow> constraints_hold (run db sts)"
  unfolding run_def by (induction sts arbitrary: db) (simp_all add: step_constraints_hold)

lemma empty_constraints_hold: "constraints_hold empty_database"
  by (simp add: constraints_hold_def empty_database_def idx_ledger_idempotency_def
      reward_events_idempotency_key_key_def)

lemma insert_ledger_duplicate:
  assumes "ledger_key e \<in> ledger_key ` set (ledger_entries db)"
  shows "isl (execute (InsertLedgerEntry e) db)"
  using assms by (simp add: check_ledger_entries_def idx_ledger_idempotency_def)

lemma insert_reward_duplicate:
  assumes "re_idempotency_key r \<in> re_idempotency_key ` set (reward_events db)"
  shows "isl (execute (InsertRewardEvent r) db)"
  using assms by (simp add: check_reward_events_def reward_events_idempotency_key_key_def)

lemma isl_step: "isl (execute st db) \<Longrightarrow> step db st = db"
  by (cases "execute st db") (simp_all add: step_def)

text \<open>
  Claim C3. In every state reached from the empty tables by any statements, the pairs
  \<open>(idempotency_key, entry_type)\<close> of the ledger entries are pairwise distinct and so are
  the idempotency keys of the reward events; an insert of a row whose key (with its entry
  type, for an entry) is already there fails and leaves the state as it was.
\<close>

theorem idempotency_keys_unique:
  assumes "db = run empty_database sts"
  shows "idx_ledger_idempotency (ledger_entries db) \<and>
    reward_events_idempotency_key_key (reward_events db) \<and>
    (ledger_key e \<in> ledger_key ` set (ledger_entries db) \<longrightarrow>
       isl (execute (InsertLedgerEntry e) db) \<and> step db (InsertLedgerEntry e) = db) \<and>
    (re_idempotency_key r \<in> re_idempotency_key ` set (reward_events db) \<longrightarrow>
       isl (execute (InsertRewardEvent r) db) \<and> step db (InsertRewardEvent r) = db)"
proof -
  have "constraints_hold db"
    using assms run_constraints_hold [OF empty_constraints_hold] by simp
  then show ?thesis
    using insert_ledger_duplicate [of e db] insert_reward_duplicate [of r db]
      isl_step [of "InsertLedgerEntry e" db] isl_step [of "InsertRewardEvent r" db]
    by (auto simp: constraints_hold_def)
qed

theorem idempotency_keys_unique_witness:
  "ledger_key (example_entry_1\<lparr>entry_id := ''e3''\<rparr>)
     \<in> ledger_key ` set (ledger_entries example_database) \<and>
   re_idempotency_key (example_event\<lparr>re_id := ''r2''\<rparr>)
     \<in> re_idempotency_key ` set (reward_events example_database) \<and>
   distinct (map ledger_key (ledger_entries example_database)) \<and>
   distinct (map re_idempotency_key (reward_events example_database)) \<and>
   isl (execute (InsertLedgerEntry (example_entry_1\<lparr>entry_id := ''e3''\<rparr>)) example_database) \<and>
   step example_database (InsertLedgerEntry (example_entry_1\<lparr>entry_id := ''e3''\<rparr>))
     = example_database \<and>
   isl (execute (InsertRewardEvent (example_event\<lparr>re_id := ''r2''\<rparr>)) example_database) \<and>
   step example_database (InsertRewardEvent (example_event\<lparr>re_id := ''r2''\<rparr>))
     = example_database"
proof -
  have h: "ledger_key (example_entry_1\<lparr>entry_id := ''e3''\<rparr>)
     \<in> ledger_key ` set (ledger_entries example_database)"
    by (simp add: example_database_eq ledger_key_def)
  have k: "re_idempotency_key (example_event\<lparr>re_id := ''r2''\<rparr>)
     \<in> re_idempotency_key ` set (reward_events example_database)"
    by (simp add: example_database_eq)
  show ?thesis
    using h k
      idempotency_keys_unique [OF example_database_def,
        of "example_entry_1\<lparr>entry_id := ''e3''\<rparr>" "example_event\<lparr>re_id := ''r2''\<rparr>"]
    by (simp add: idx_ledger_idempotency_def reward_events_idempotency_key_key_def)
qed

text \<open>
  Claim C4. In every state reached from the empty tables by any statements, every reward
  event has a referrer different from its referred user; an insert of a row whose
  referrer is its referred user fails (on the check, when its amount fits the column)
  and leaves the state as it was.
\<close>

theorem valid_participants_invariant:
  assumes "db = run empty_database sts"
  shows "(\<forall>r \<in> set (reward_events db). referrer_user_id r \<noteq> referred_user_id r) \<and>
    (referrer_user_id r = referred_user_id r \<longrightarrow>
       execute (InsertRewardEvent r) db \<in>
         {Inl NumericOverflow, Inl (CheckViolation ''valid_participants'')} \<and>
       (numeric_15_2 (re_amount r) \<longrightarrow>
          execute (InsertRewardEvent r) db = Inl (CheckViolation ''valid_participants'')) \<and>
       step db (InsertRewardEvent r) = db)"
proof -
  have "constraints_hold db"
    using assms run_constraints_hold [OF empty_constraints_hold] by simp
  then have "\<forall>r \<in> set (reward_events db). referrer_user_id r \<noteq> referred_user_id r"
    by (simp add: constraints_hold_def list_all_iff valid_participants_def)
  moreover have "referrer_user_id r = referred_user_id r \<Longrightarrow>
      execute (InsertRewardEvent r) db \<in>
         {Inl NumericOverflow, Inl (CheckViolation ''valid_participants'')}"
    by (simp add: check_reward_events_def valid_participants_def)
  moreover have "referrer_user_id r = referred_user_id r \<Longrightarrow> numeric_15_2 (re_amount r) \<Longrightarrow>
      execute (InsertRewardEvent r) db = Inl (CheckViolation ''valid_participants'')"
    by (simp add: check_reward_events_def valid_participants_def)
  moreover have "referrer_user_id r = referred_user_id r \<Longrightarrow> step db (InsertRewardEvent r) = db"
    by (simp add: step_def check_reward_events_def valid_participants_def)
  ultimately show ?thesis by blast
qed

theorem valid_participants_invariant_witness:
  "referrer_user_id (example_event\<lparr>re_id := ''r2'', re_idempotency_key := ''k2'',
       referred_user_id := ''A''\<rparr>)
     = referred_user_id (example_event\<lparr>re_id := ''r2'', re_idempotency_key := ''k2'',
       referred_user_id := ''A''\<rparr>) \<and>
   example_event \<in> set (reward_events example_database) \<and>
   referrer_user_id example_event \<noteq> referred_user_id example_event \<and>
   execute (InsertRewardEvent (example_event\<lparr>re_id := ''r2'', re_idempotency_key := ''k2'',
       referred_user_id := ''A''\<rparr>)) example_database
     = Inl (CheckViolation ''valid_participants'') \<and>
   step example_database (InsertRewardEvent (example_event\<lparr>re_id := ''r2'',
       re_idempotency_key := ''k2'', referred_user_id := ''A''\<rparr>)) = example_database"
proof -
  have h: "referrer_user_id (example_event\<lparr>re_id := ''r2'', re_idempotency_key := ''k2'',
       referred_user_id := ''A''\<rparr>)
     = referred_user_id (example_event\<lparr>re_id := ''r2'', re_idempotency_key := ''k2'',
       referred_user_id := ''A''\<rparr>)"
    by (simp add: example_event_def)
  have n: "numeric_15_2 (re_amount (example_event\<lparr>re_id := ''r2'', re_idempotency_key := ''k2'',
       referred_user_id := ''A''\<rparr>))"
    by (simp add: example_event_def numeric_15_2_def)
  have m: "example_event \<in> set (reward_events example_database)"
    by (simp add: example_database_eq)
  show ?thesis
    using h n m
      valid_participants_invariant [OF example_database_def,
        of "example_event\<lparr>re_id := ''r2'', re_idempotency_key := ''k2'',
             referred_user_id := ''A''\<rparr>"]
    by blast
qed

subsection \<open>The derived balance\<close>

lemma append_entry_cases:
  assumes "append_entry db d = Inr (db', e)"
  shows "db' = db \<or>
    (ledger_entries db' = ledger_entries db @ [e] \<and>
     balance_after e = getBalance db (user_id e) (currency e) + amount e)"
proof -
  obtain draft new_id now where d: "d = (draft, new_id, now)" by (cases d)
  show ?thesis
    using assms unfolding d append_entry_def
    by (auto simp: Let_def dest!: check_ledger_entries_Inr split: option.splits sum.splits)
qed

lemma balanced_snoc:
  assumes "balanced db" "ledger_entries db' = ledger_entries db @ [e]"
    "balance_after e = getBalance db (user_id e) (currency e) + amount e"
  shows "balanced db'"
  using assms unfolding balanced_def getBalance_def entries_of_def by auto

lemma append_step_balanced: "balanced db \<Longrightarrow> balanced (append_step db d)"
proof (cases "append_entry db d")
  case (Inl err)
  assume "balanced db"
  with Inl show ?thesis by (simp add: append_step_def)
next
  case (Inr p)
  assume b: "balanced db"
  obtain db' e where p: "p = (db', e)" by (cases p)
  from append_entry_cases [OF Inr [unfolded p]] b have "balanced db'"
    by (auto intro: balanced_snoc)
  then show ?thesis using Inr p by (simp add: append_step_def)
qed

lemma appends_balanced: "balanced db \<Longrightarrow> balanced (appends db ds)"
  unfolding appends_def by (induction ds arbitrary: db) (simp_all add: append_step_balanced)

lemma empty_balanced: "balanced empty_database"
  by (simp add: balanced_def empty_database_def entries_of_def)

lemma sql_sum_nonempty: "vs \<noteq> [] \<Longrightarrow> sql_sum vs = Some (sum_list vs)"
  by (cases vs) simp_all

lemma latest_entry_nonempty:
  "entries_of (ledger_entries db) u c \<noteq> [] \<Longrightarrow>
     latest_entry db u c = Some (last (entries_of (ledger_entries db) u c))"
  by (cases "entries_of (ledger_entries db) u c" rule: rev_cases) (simp_all add: latest_entry_def)

lemma filter_eq_remdups: "p \<in> set ps \<Longrightarrow> filter (\<lambda>q. q = p) (remdups ps) = [p]"
proof (induction ps)
  case Nil
  then show ?case by simp
next
  case (Cons a ps)
  show ?case
  proof (cases "a \<in> set ps")
    case True
    with Cons show ?thesis by auto
  next
    case False
    have "filter (\<lambda>q. q = p) (remdups ps) = []" if "p \<notin> set ps"
      using that by (auto simp: filter_empty_conv)
    with Cons False show ?thesis by auto
  qed
qed

text \<open>The view has exactly one row for a pair that has an entry, and its
  \<open>current_balance\<close> is the sum of the amounts of the pair's entries.\<close>

lemma user_balances_row:
  assumes "entries_of (ledger_entries db) u c \<noteq> []"
  shows "filter (\<lambda>row. ub_user_id row = u \<and> ub_currency row = c) (user_balances db) =
     [\<lparr>ub_user_id = u, ub_currency = c,
       current_balance = Some (sum_list (map amount (entries_of (ledger_entries db) u c))),
       total_entries = length (entries_of (ledger_entries db) u c),
       last_transaction_at = sql_max (map created_at (entries_of (ledger_entries db) u c))\<rparr>]"
proof -
  from assms obtain e where "e \<in> set (ledger_entries db)" "user_id e = u" "currency e = c"
    by (auto simp: entries_of_def filter_empty_conv)
  then have "(u, c) \<in> set (map (\<lambda>e. (user_id e, currency e)) (ledger_entries db))"
    by force
  from filter_eq_remdups [OF this] assms show ?thesis
    by (simp add: user_balances_def filter_map comp_def case_prod_unfold prod_eq_iff
        sql_sum_nonempty flip: prod.collapse)
qed

lemma example_ledger_entries:
  "ledger_entries example_ledger = [example_entry_1, example_entry_2]"
  by (simp add: example_ledger_def appends_def append_step_def append_entry_def
      example_credit_def example_reversal_def empty_database_def getBalance_def entries_of_def
      ledger_key_def check_ledger_entries_def ledger_entry_fits_def numeric_15_2_def
      ledger_entries_pkey_def
      idx_ledger_idempotency_def Let_def example_entry_1_def example_entry_2_def)

text \<open>
  Claim C1. After any sequence of appends to the empty ledger, for every user and
  currency that have an entry, the view \<open>user_balances\<close> has exactly one row for the pair,
  and the balance it reports is the sum of the amounts of all the pair's entries and is
  the \<open>balance_after\<close> of the pair's most recent entry; \<open>getBalance\<close> agrees.
\<close>

theorem balance_is_sum_and_latest_balance_after:
  assumes "db = appends empty_database ds" and "entries_of (ledger_entries db) u c \<noteq> []"
  shows "\<exists>row e.
     filter (\<lambda>row. ub_user_id row = u \<and> ub_currency row = c) (user_balances db) = [row] \<and>
     latest_entry db u c = Some e \<and>
     current_balance row = Some (sum_list (map amount (entries_of (ledger_entries db) u c))) \<and>
     current_balance row = Some (balance_after e) \<and>
     getBalance db u c = balance_after e"
proof -
  have "balanced db" using assms(1) appends_balanced [OF empty_balanced] by simp
  with assms(2) have "balance_after (last (entries_of (ledger_entries db) u c)) =
        sum_list (map amount (entries_of (ledger_entries db) u c))"
    by (simp add: balanced_def)
  with user_balances_row [OF assms(2)] latest_entry_nonempty [OF assms(2)]
  show ?thesis by (simp add: getBalance_def)
qed

theorem balance_is_sum_and_latest_balance_after_witness:
  "entries_of (ledger_entries example_ledger) ''A'' (Some ''INR'') \<noteq> [] \<and>
   (\<exists>row e. filter (\<lambda>row. ub_user_id row = ''A'' \<and> ub_currency row = Some ''INR'')
        (user_balances example_ledger) = [row] \<and>
     latest_entry example_ledger ''A'' (Some ''INR'') = Some e \<and>
     current_balance row = Some 0 \<and> balance_after e = 0 \<and> entry_id e = ''e2'')"
proof -
  note es = example_ledger_entries
  have h: "entries_of (ledger_entries example_ledger) ''A'' (Some ''INR'') \<noteq> []"
    by (simp add: es entries_of_def example_entry_1_def)
  from balance_is_sum_and_latest_balance_after [OF example_ledger_def h] obtain row e where
    r: "filter (\<lambda>row. ub_user_id row = ''A'' \<and> ub_currency row = Some ''INR'')
        (user_balances example_ledger) = [row]"
     "latest_entry example_ledger ''A'' (Some ''INR'') = Some e"
     "current_balance row = Some (sum_list (map amount
        (entries_of (ledger_entries example_ledger) ''A'' (Some ''INR''))))"
     "current_balance row = Some (balance_after e)"
    by blast
  have "sum_list (map amount (entries_of (ledger_entries example_ledger) ''A'' (Some ''INR''))) = 0"
    by (simp add: es entries_of_def example_entry_1_def example_entry_2_def)
  moreover have "latest_entry example_ledger ''A'' (Some ''INR'') = Some example_entry_2"
    by (simp add: es latest_entry_def entries_of_def example_entry_1_def example_entry_2_def)
  ultimately show ?thesis using h r by (auto simp: example_entry_2_def)
qed

section \<open>Properties of the flow builder\<close>

subsection \<open>Evaluation of the example session\<close>

lemma decimal_digits:
  "decimal 0 = ''0''" "decimal 1 = ''1''" "decimal 2 = ''2''" "decimal 3 = ''3''"
  "decimal 4 = ''4''" "decimal 5 = ''5''" "decimal 6 = ''6''" "decimal 7 = ''7''"
  by code_simp+

lemma example_canvas_eq:
  "example_canvas =
     \<lparr>nodes = example_nodes,
      connections = [\<lparr>conn_from = ''node-1'', conn_to = ''node-2''\<rparr>,
                     \<lparr>conn_from = ''node-2'', conn_to = ''node-4''\<rparr>],
      selectedNode = None, connecting = None, nextNodeId = 6, dragOffset = (0, 0)\<rparr>"
  by code_simp

subsection \<open>Export\<close>

text \<open>
  Claim C5. For every state of the canvas with no condition node, the rule that
  \<open>buildRuleJSON\<close> returns has as its conditions exactly the fallback leaf with field
  \<open>event.occurred\<close> and operator \<open>is_true\<close>, and no value.
\<close>

theorem no_condition_nodes_fallback_leaf:
  "filter (\<lambda>n. node_type n = ''condition'') (nodes s) = [] \<Longrightarrow>
     conditions (buildRuleJSON now s) =
       JObj [(''field'', JStr ''event.occurred''), (''operator'', JStr ''is_true'')]"
  by (simp add: buildRuleJSON_def Let_def)

theorem no_condition_nodes_fallback_leaf_witness:
  "filter (\<lambda>n. node_type n = ''condition'')
     (nodes (deleteNode ''node-2'' (deleteNode ''node-3'' example_canvas))) = [] \<and>
   conditions (buildRuleJSON 7 (deleteNode ''node-2'' (deleteNode ''node-3'' example_canvas))) =
     JObj [(''field'', JStr ''event.occurred''), (''operator'', JStr ''is_true'')]"
proof -
  have h: "filter (\<lambda>n. node_type n = ''condition'')
      (nodes (deleteNode ''node-2'' (deleteNode ''node-3'' example_canvas))) = []"
    by code_simp
  from h no_condition_nodes_fallback_leaf [OF h, of 7] show ?thesis by (rule conjI)
qed

text \<open>
  Claim C6, as amended. \<open>buildRuleJSON\<close> rejects nothing: it returns a rule for every state
  of the canvas. Without a trigger node the trigger of the rule is \<open>referral_signup\<close>,
  with one it is the sub-type of the first; without an action node the actions are the
  single default \<open>credit_reward\<close> of 100 INR, with some they are one action per action
  node. So the rule it hands on always names a trigger and has an action.
\<close>

theorem missing_trigger_or_actions_defaulted:
  "trigger (buildRuleJSON now s) =
     (case find (\<lambda>n. node_type n = ''trigger'') (nodes s) of
        None \<Rightarrow> ''referral_signup'' | Some t \<Rightarrow> subType t) \<and>
   actions (buildRuleJSON now s) =
     (if filter (\<lambda>n. node_type n = ''action'') (nodes s) = [] then
        [JObj [(''type'', JStr ''credit_reward''),
               (''params'', JObj [(''amount'', JNum 100), (''currency'', JStr ''INR'')])]]
      else map action_of (filter (\<lambda>n. node_type n = ''action'') (nodes s))) \<and>
   actions (buildRuleJSON now s) \<noteq> []"
  by (simp add: buildRuleJSON_def Let_def split: option.splits)

text \<open>The claim as it was stated fails on the empty canvas: with no trigger node and no
  action node the export is a complete rule, not an error.\<close>

theorem empty_canvas_exports_rule:
  "find (\<lambda>n. node_type n = ''trigger'') (nodes initial_state) = None \<and>
   filter (\<lambda>n. node_type n = ''action'') (nodes initial_state) = [] \<and>
   buildRuleJSON 0 initial_state =
     \<lparr>rule_id = ''rule-0'', rule_name = ''Generated Rule'',
      rule_description = ''Rule created with visual flow builder'',
      version = 1, is_active = True, priority = 0,
      trigger = ''referral_signup'',
      conditions = JObj [(''field'', JStr ''event.occurred''), (''operator'', JStr ''is_true'')],
      actions = [JObj [(''type'', JStr ''credit_reward''),
         (''params'', JObj [(''amount'', JNum 100), (''currency'', JStr ''INR'')])]]\<rparr>"
  by code_simp

subsection \<open>Deleting a node\<close>

text \<open>
  Claim C8. After \<open>deleteNode(id)\<close> no node of the state has the id and no connection
  starts or ends at it, and the other nodes and the other connections are the same, in
  the same order, as before.
\<close>

theorem deleteNode_frame:
  "(\<forall>n \<in> set (nodes (deleteNode nid s)). node_id n \<noteq> nid) \<and>
   (\<forall>c \<in> set (connections (deleteNode nid s)). conn_from c \<noteq> nid \<and> conn_to c \<noteq> nid) \<and>
   filter (\<lambda>n. node_id n \<noteq> nid) (nodes (deleteNode nid s))
     = filter (\<lambda>n. node_id n \<noteq> nid) (nodes s) \<and>
   filter (\<lambda>c. conn_from c \<noteq> nid \<and> conn_to c \<noteq> nid) (connections (deleteNode nid s))
     = filter (\<lambda>c. conn_from c \<noteq> nid \<and> conn_to c \<noteq> nid) (connections s)"
  by (simp add: deleteNode_def)

theorem deleteNode_frame_witness:
  "map node_id (nodes (deleteNode ''node-4'' example_canvas))
     = [''node-1'', ''node-2'', ''node-3'', ''node-5''] \<and>
   connections (deleteNode ''node-4'' example_canvas)
     = [\<lparr>conn_from = ''node-1'', conn_to = ''node-2''\<rparr>] \<and>
   filter (\<lambda>n. node_id n \<noteq> ''node-4'') (nodes (deleteNode ''node-4'' example_canvas))
     = filter (\<lambda>n. node_id n \<noteq> ''node-4'') (nodes example_canvas) \<and>
   filter (\<lambda>c. conn_from c \<noteq> ''node-4'' \<and> conn_to c \<noteq> ''node-4'')
       (connections (deleteNode ''node-4'' example_canvas))
     = filter (\<lambda>c. conn_from c \<noteq> ''node-4'' \<and> conn_to c \<noteq> ''node-4'')
         (connections example_canvas)"
proof -
  have ev: "map node_id (nodes (deleteNode ''node-4'' example_canvas))
      = [''node-1'', ''node-2'', ''node-3'', ''node-5'']"
    "connections (deleteNode ''node-4'' example_canvas)
      = [\<lparr>conn_from = ''node-1'', conn_to = ''node-2''\<rparr>]"
    by code_simp+
  from deleteNode_frame [of "''node-4''" example_canvas] ev show ?thesis by blast
qed

subsection \<open>Connections\<close>

lemma createNode_connections:
  "createNode dat px py s = (s1, r) \<Longrightarrow> connections s1 = connections s"
  by (auto simp: createNode_def Let_def split: if_splits option.splits prod.splits)

lemma generate_condition_connections: "connections (generate_condition s ic) = connections s"
proof -
  obtain i cond where ic: "ic = (i, cond)" by (cases ic)
  show ?thesis
    unfolding ic generate_condition_def
    by (auto split: jsval.splits prod.splits option.splits dest: createNode_connections)
qed

lemma generate_action_connections: "connections (generate_action px s ia) = connections s"
proof -
  obtain i action where ia: "ia = (i, action)" by (cases ia)
  show ?thesis
    unfolding ia generate_action_def
    by (auto split: jsval.splits prod.splits option.splits dest: createNode_connections)
qed

lemma foldl_connections:
  assumes "\<And>s x. connections (f s x) = connections s"
  shows "connections (foldl f s xs) = connections s"
  using assms by (induction xs arbitrary: s) simp_all

lemma fst_createNode_connections: "connections (fst (createNode dat px py s)) = connections s"
  using createNode_connections [of dat px py s] by (cases "createNode dat px py s") simp

lemma generateNodesFromRule_connections:
  "connections (generateNodesFromRule r s) = connections s"
  by (simp add: generateNodesFromRule_def Let_def foldl_connections
      generate_condition_connections generate_action_connections fst_createNode_connections)

lemma generateFromAI_connections:
  "connections (generateFromAI lc val s) = connections s \<or> connections (generateFromAI lc val s) = []"
  by (simp add: generateFromAI_def Let_def generateNodesFromRule_connections clearCanvas_def)

lemma list_ex_connection:
  "list_ex (\<lambda>c. conn_from c = f \<and> conn_to c = t) cs \<longleftrightarrow> \<lparr>conn_from = f, conn_to = t\<rparr> \<in> set cs"
  by (induction cs) auto

lemma handlePortClick_connections:
  "connections (handlePortClick i pt s) = connections s \<or>
   (\<exists>cg c. connecting s = Some cg \<and> i < length (nodes s) \<and>
      nodeId cg \<noteq> node_id (nodes s ! i) \<and> portType cg \<noteq> pt \<and>
      c = (if portType cg = ''output''
           then \<lparr>conn_from = nodeId cg, conn_to = node_id (nodes s ! i)\<rparr>
           else \<lparr>conn_from = node_id (nodes s ! i), conn_to = nodeId cg\<rparr>) \<and>
      c \<notin> set (connections s) \<and>
      connections (handlePortClick i pt s) = connections s @ [c])"
  by (auto simp: handlePortClick_def Let_def list_ex_connection split: option.splits)

lemma handle_connections_ok: "connections_ok s \<Longrightarrow> connections_ok (handle lc s ev)"
proof (cases ev)
  case (PortClick i pt)
  assume "connections_ok s"
  with handlePortClick_connections [of i pt s] PortClick show ?thesis
    by (auto simp: connections_ok_def split: if_splits)
next
  case (GenerateFromAI val)
  assume "connections_ok s"
  with generateFromAI_connections [of lc val s] GenerateFromAI show ?thesis
    by (auto simp: connections_ok_def)
next
  case (CanvasDrop dat px py)
  assume "connections_ok s"
  with CanvasDrop show ?thesis
    by (simp add: connections_ok_def fst_createNode_connections)
qed (auto simp: connections_ok_def handleNodeMouseDown_def handleMouseMove_def handleNodeClick_def
    handleCanvasClick_def deleteConnection_def deleteNode_def clearCanvas_def)

lemma reach_connections_ok: "connections_ok (reach lc evs)"
proof -
  have "connections_ok (foldl (handle lc) s evs)" if "connections_ok s" for s
    using that by (induction evs arbitrary: s) (simp_all add: handle_connections_ok)
  moreover have "connections_ok initial_state"
    by (simp add: connections_ok_def initial_state_def)
  ultimately show ?thesis by (simp add: reach_def)
qed

text \<open>
  Claim C9. \<open>handlePortClick\<close> leaves the connections as they are or adds one at the end,
  and it adds one only when a connection is pending from another node and from a port of
  the other type, and the connection between the two nodes is not there yet. In every
  state the editor reaches, no connection joins a node to itself and no connection
  occurs twice.
\<close>

theorem connections_no_self_loop_no_duplicate:
  "(connections (handlePortClick i pt s) = connections s \<or>
    (\<exists>cg c. connecting s = Some cg \<and> i < length (nodes s) \<and>
      nodeId cg \<noteq> node_id (nodes s ! i) \<and> portType cg \<noteq> pt \<and>
      c = (if portType cg = ''output''
           then \<lparr>conn_from = nodeId cg, conn_to = node_id (nodes s ! i)\<rparr>
           else \<lparr>conn_from = node_id (nodes s ! i), conn_to = nodeId cg\<rparr>) \<and>
      c \<notin> set (connections s) \<and>
      connections (handlePortClick i pt s) = connections s @ [c])) \<and>
   (\<forall>c \<in> set (connections (reach lc evs)). conn_from c \<noteq> conn_to c) \<and>
   distinct (connections (reach lc evs))"
  using handlePortClick_connections [of i pt s] reach_connections_ok [of lc evs]
  by (simp add: connections_ok_def)

theorem connections_no_self_loop_no_duplicate_witness:
  "connections (handlePortClick 4 ''input'' (handlePortClick 3 ''output'' example_canvas))
     = connections (handlePortClick 3 ''output'' example_canvas)
         @ [\<lparr>conn_from = ''node-4'', conn_to = ''node-5''\<rparr>] \<and>
   connections (reach ascii_lower example_events)
     = [\<lparr>conn_from = ''node-1'', conn_to = ''node-2''\<rparr>,
        \<lparr>conn_from = ''node-2'', conn_to = ''node-4''\<rparr>] \<and>
   list_all (\<lambda>c. conn_from c \<noteq> conn_to c) (connections (reach ascii_lower example_events)) \<and>
   distinct (connections (reach ascii_lower example_events))"
proof -
  have ev: "connections (handlePortClick 4 ''input'' (handlePortClick 3 ''output'' example_canvas))
     = connections (handlePortClick 3 ''output'' example_canvas)
         @ [\<lparr>conn_from = ''node-4'', conn_to = ''node-5''\<rparr>]"
    "connections (reach ascii_lower example_events)
     = [\<lparr>conn_from = ''node-1'', conn_to = ''node-2''\<rparr>,
        \<lparr>conn_from = ''node-2'', conn_to = ''node-4''\<rparr>]"
    by code_simp+
  from connections_no_self_loop_no_duplicate
    [of 4 "''input''" "handlePortClick 3 ''output'' example_canvas" ascii_lower example_events]
  have "(\<forall>c \<in> set (connections (reach ascii_lower example_events)). conn_from c \<noteq> conn_to c) \<and>
     distinct (connections (reach ascii_lower example_events))"
    by blast
  with ev show ?thesis by (simp only: list_all_iff) blast
qed

subsection \<open>Order and kinds of the nodes\<close>




































subsection \<open>Generation from natural language\<close>














end
